theory Spec2Isabelle
  imports Complex_Main "HOL-Library.AList"
begin

section \<open>The video trim service (Video\_Trim/main.py)\<close>

text \<open>
  The service keeps its whole state on the filesystem: finished videos in the Storage
  Directory \<^verbatim>\<open>/app/videos\<close>, working files in \<^verbatim>\<open>/tmp\<close>. The handlers of main.py are
  embedded as functions that take the filesystem and return a result together with the
  filesystem they leave behind. A raised exception is the left injection of the result.
  Calls to \<^verbatim>\<open>print\<close> are not modelled, apart from the summary line of the sweep, which is
  returned as its report.
\<close>

subsection \<open>Exceptions\<close>

datatype exn =
    FileNotFoundError string
  | NotADirectoryError string
  | IsADirectoryError string
  | PermissionError string
  | OSError string
  | ShutilError string
  | RequestException string
  | HTTPError nat
  | SubprocessError string
  | Exception string
  | HTTPException nat string

fun digits :: "nat \<Rightarrow> nat \<Rightarrow> string" where
  "digits 0 n = []"
| "digits (Suc k) n = digits k (n div 10) @ [char_of (48 + n mod 10)]"

text \<open>\<^verbatim>\<open>str(e)\<close>: the message of an exception (status codes are below 1000).\<close>

fun str_exn :: "exn \<Rightarrow> string" where
  "str_exn (FileNotFoundError p) = ''[Errno 2] No such file or directory: '' @ p"
| "str_exn (NotADirectoryError p) = ''[Errno 20] Not a directory: '' @ p"
| "str_exn (IsADirectoryError p) = ''[Errno 21] Is a directory: '' @ p"
| "str_exn (PermissionError p) = ''[Errno 1] Operation not permitted: '' @ p"
| "str_exn (OSError m) = m"
| "str_exn (ShutilError m) = m"
| "str_exn (RequestException m) = m"
| "str_exn (HTTPError c) = digits 3 c @ '' Error''"
| "str_exn (SubprocessError m) = m"
| "str_exn (Exception m) = m"
| "str_exn (HTTPException c d) = digits 3 c @ '': '' @ d"

subsection \<open>The filesystem capability\<close>

text \<open>
  A filesystem is a list of entries keyed by their absolute path, given as the list of
  its components; the root is the empty list and is always a directory. The order of the
  list is the order in which \<^verbatim>\<open>os.listdir\<close> reports the entries. A regular file carries
  its bytes, its modification time in seconds and whether the operating system refuses to
  unlink it (an immutable file); a directory carries its modification time. There are no
  symbolic links.
\<close>

type_synonym path = "string list"

datatype node =
    File (bytes: string) (mtime: real) (locked: bool)
  | Dir (mtime: real)

type_synonym fs = "(path \<times> node) list"

definition valid_name :: "string \<Rightarrow> bool" where
  "valid_name c \<longleftrightarrow> c \<noteq> [] \<and> c \<noteq> ''.'' \<and> c \<noteq> ''..'' \<and> CHR ''/'' \<notin> set c"

text \<open>Keys are distinct and made of proper file names.\<close>

definition wf_fs :: "fs \<Rightarrow> bool" where
  "wf_fs fs \<longleftrightarrow> distinct (map fst fs) \<and> list_all (\<lambda>(p, n). p \<noteq> [] \<and> list_all valid_name p) fs"

fun split_path :: "string \<Rightarrow> string list" where
  "split_path [] = [[]]"
| "split_path (c # cs) =
     (if c = CHR ''/'' then [] # split_path cs
      else (case split_path cs of [] \<Rightarrow> [[c]] | w # ws \<Rightarrow> (c # w) # ws))"

definition is_dir :: "fs \<Rightarrow> path \<Rightarrow> bool" where
  "is_dir fs p \<longleftrightarrow> p = [] \<or> (case map_of fs p of Some (Dir _) \<Rightarrow> True | _ \<Rightarrow> False)"

text \<open>
  Path resolution as the kernel does it, one component at a time: every component is
  looked up in a directory that must exist; the last component itself need not exist.
  All paths of the program are absolute, so resolution starts at the root.
\<close>

fun walk :: "fs \<Rightarrow> path \<Rightarrow> string list \<Rightarrow> path option" where
  "walk fs cur [] = Some cur"
| "walk fs cur (c # cs) =
     (if \<not> is_dir fs cur then None
      else if c = [] \<or> c = ''.'' then walk fs cur cs
      else if c = ''..'' then walk fs (butlast cur) cs
      else walk fs (cur @ [c]) cs)"

definition resolve :: "fs \<Rightarrow> string \<Rightarrow> path option" where
  "resolve fs s = walk fs [] (split_path s)"

definition lookup :: "fs \<Rightarrow> string \<Rightarrow> node option" where
  "lookup fs s =
     (case resolve fs s of None \<Rightarrow> None
      | Some p \<Rightarrow> if p = [] then Some (Dir 0) else map_of fs p)"

text \<open>\<^verbatim>\<open>os.path.join\<close> with two arguments (posixpath).\<close>

definition path_join :: "string \<Rightarrow> string \<Rightarrow> string" where
  "path_join a b =
     (if b \<noteq> [] \<and> hd b = CHR ''/'' then b
      else if a = [] \<or> last a = CHR ''/'' then a @ b
      else a @ ''/'' @ b)"

definition basename :: "string \<Rightarrow> string" where
  "basename s = last (split_path s)"

definition exists :: "fs \<Rightarrow> string \<Rightarrow> bool" where
  "exists fs s \<longleftrightarrow> lookup fs s \<noteq> None"

definition isfile :: "fs \<Rightarrow> string \<Rightarrow> bool" where
  "isfile fs s \<longleftrightarrow> (case lookup fs s of Some (File _ _ _) \<Rightarrow> True | _ \<Rightarrow> False)"

definition isdir :: "fs \<Rightarrow> string \<Rightarrow> bool" where
  "isdir fs s \<longleftrightarrow> (case lookup fs s of Some (Dir _) \<Rightarrow> True | _ \<Rightarrow> False)"

definition getmtime :: "fs \<Rightarrow> string \<Rightarrow> exn + real" where
  "getmtime fs s =
     (case lookup fs s of None \<Rightarrow> Inl (FileNotFoundError s) | Some n \<Rightarrow> Inr (mtime n))"

definition entries_in :: "fs \<Rightarrow> path \<Rightarrow> fs" where
  "entries_in fs d = filter (\<lambda>(p, n). p \<noteq> [] \<and> butlast p = d) fs"

definition children :: "fs \<Rightarrow> path \<Rightarrow> string list" where
  "children fs d = map (last \<circ> fst) (entries_in fs d)"

definition listdir :: "fs \<Rightarrow> string \<Rightarrow> exn + string list" where
  "listdir fs s =
     (case resolve fs s of None \<Rightarrow> Inl (FileNotFoundError s)
      | Some p \<Rightarrow>
          if is_dir fs p then Inr (children fs p)
          else if map_of fs p = None then Inl (FileNotFoundError s)
          else Inl (NotADirectoryError s))"

text \<open>\<^verbatim>\<open>os.remove\<close>: unlinks a regular file, and raises on anything else.\<close>

definition remove :: "fs \<Rightarrow> string \<Rightarrow> exn + fs" where
  "remove fs s =
     (case resolve fs s of None \<Rightarrow> Inl (FileNotFoundError s)
      | Some p \<Rightarrow>
          if p = [] then Inl (IsADirectoryError s)
          else (case map_of fs p of
                  None \<Rightarrow> Inl (FileNotFoundError s)
                | Some (Dir _) \<Rightarrow> Inl (IsADirectoryError s)
                | Some (File c m l) \<Rightarrow>
                    if l then Inl (PermissionError s) else Inr (AList.delete p fs)))"

text \<open>
  \<^verbatim>\<open>open(path, 'wb')\<close> followed by \<^verbatim>\<open>write(data)\<close>: the file is created or truncated,
  then filled. With a limit of \<open>k\<close> bytes of free space a longer write leaves the first
  \<open>k\<close> bytes behind and raises.
\<close>

definition write_file :: "fs \<Rightarrow> string \<Rightarrow> string \<Rightarrow> real \<Rightarrow> nat option \<Rightarrow> (exn + unit) \<times> fs" where
  "write_file fs s data now space =
     (case resolve fs s of None \<Rightarrow> (Inl (FileNotFoundError s), fs)
      | Some p \<Rightarrow>
          if is_dir fs p then (Inl (IsADirectoryError s), fs)
          else (case map_of fs p of
                  Some (File c m True) \<Rightarrow> (Inl (PermissionError s), fs)
                | _ \<Rightarrow>
                    (case space of
                       None \<Rightarrow> (Inr (), AList.update p (File data now False) fs)
                     | Some k \<Rightarrow>
                         if k < length data
                         then (Inl (OSError ''[Errno 28] No space left on device''),
                               AList.update p (File (take k data) now False) fs)
                         else (Inr (), AList.update p (File data now False) fs))))"

text \<open>\<^verbatim>\<open>os.rename\<close>: a file replaces a file; a directory moves with everything below it.\<close>

definition rename_tree :: "path \<Rightarrow> path \<Rightarrow> fs \<Rightarrow> fs" where
  "rename_tree s d fs =
     map (\<lambda>(p, n). if take (length s) p = s then (d @ drop (length s) p, n) else (p, n)) fs"

definition rename :: "fs \<Rightarrow> string \<Rightarrow> string \<Rightarrow> exn + fs" where
  "rename fs src dst =
     (case resolve fs src of None \<Rightarrow> Inl (FileNotFoundError src)
      | Some s \<Rightarrow>
          (case map_of fs s of
             None \<Rightarrow> Inl (FileNotFoundError src)
           | Some (File c m l) \<Rightarrow>
               (case resolve fs dst of None \<Rightarrow> Inl (FileNotFoundError dst)
                | Some d \<Rightarrow>
                    if is_dir fs d then Inl (IsADirectoryError dst)
                    else if l then Inl (PermissionError src)
                    else (case map_of fs d of
                            Some (File c' m' True) \<Rightarrow> Inl (PermissionError dst)
                          | _ \<Rightarrow> Inr (AList.update d (File c m l) (AList.delete s fs))))
           | Some (Dir m) \<Rightarrow>
               (case resolve fs dst of None \<Rightarrow> Inl (FileNotFoundError dst)
                | Some d \<Rightarrow>
                    if d = [] \<or> map_of fs d \<noteq> None then Inl (OSError dst)
                    else Inr (rename_tree s d fs))))"

text \<open>\<^verbatim>\<open>shutil.move\<close>: into the destination when it is a directory, else a rename.\<close>

definition move :: "fs \<Rightarrow> string \<Rightarrow> string \<Rightarrow> exn + fs" where
  "move fs src dst =
     (if isdir fs dst
      then (let real_dst = path_join dst (basename src)
            in if exists fs real_dst then Inl (ShutilError real_dst)
               else rename fs src real_dst)
      else rename fs src dst)"

subsection \<open>Retention Sweeper\<close>

definition VIDEOS_DIR :: string where
  "VIDEOS_DIR = ''/app/videos''"

datatype sweep_report = Complete nat nat | CleanupError string

text \<open>The loop of \<^verbatim>\<open>cleanup_old_videos\<close> over the listing, with its two counters.\<close>

fun sweep_loop :: "real \<Rightarrow> string list \<Rightarrow> nat \<Rightarrow> nat \<Rightarrow> fs \<Rightarrow> (exn + nat \<times> nat) \<times> fs" where
  "sweep_loop now [] deleted total' fs = (Inr (deleted, total'), fs)"
| "sweep_loop now (filename # rest) deleted total' fs =
     (let filepath = path_join VIDEOS_DIR filename in
      if isfile fs filepath then
        (case getmtime fs filepath of
           Inl e \<Rightarrow> (Inl e, fs)
         | Inr m \<Rightarrow>
             (let age = now - m in
              if age > 3600 then
                (case remove fs filepath of
                   Inl e \<Rightarrow> (Inl e, fs)
                 | Inr fs' \<Rightarrow> sweep_loop now rest (deleted + 1) (total' + 1) fs')
              else sweep_loop now rest deleted (total' + 1) fs))
      else sweep_loop now rest deleted total' fs)"

text \<open>The body of the \<^verbatim>\<open>try\<close> block.\<close>

definition sweep_body :: "real \<Rightarrow> fs \<Rightarrow> (exn + nat \<times> nat) \<times> fs" where
  "sweep_body now fs =
     (case listdir fs VIDEOS_DIR of
        Inl e \<Rightarrow> (Inl e, fs)
      | Inr names \<Rightarrow> sweep_loop now names 0 0 fs)"

text \<open>
  \<^verbatim>\<open>cleanup_old_videos\<close> at time \<open>now\<close>: the one handler around the body turns every
  exception into a printed line.
\<close>

definition cleanup_old_videos :: "real \<Rightarrow> fs \<Rightarrow> (exn + sweep_report) \<times> fs" where
  "cleanup_old_videos now fs =
     (case sweep_body now fs of
        (Inr (deleted, total'), fs') \<Rightarrow> (Inr (Complete deleted total'), fs')
      | (Inl e, fs') \<Rightarrow> (Inr (CleanupError (str_exn e)), fs'))"

subsection \<open>Trim Worker\<close>

record TrimRequest =
  video_url :: string
  start_time :: real
  end_time :: real
  fade_duration :: real

text \<open>The request with the defaults of the pydantic model.\<close>

definition default_request :: "string \<Rightarrow> TrimRequest" where
  "default_request url = \<lparr>video_url = url, start_time = 0, end_time = 7, fade_duration = 1 / 2\<rparr>"

record http_response =
  status_code :: nat
  content :: string

text \<open>
  The command line of the transcode tool: input, \<^verbatim>\<open>-ss\<close>, \<^verbatim>\<open>-t\<close>, the video and the
  audio fade (start and duration of each), output. The numbers are kept as numbers, not
  as the strings the source formats them to; Python's floats are read as reals.
\<close>

record ffargs =
  ff_i :: string
  ff_ss :: real
  ff_t :: real
  ff_vf :: "real \<times> real"
  ff_af :: "real \<times> real"
  ff_out :: string

text \<open>
  What one run of the tool does: it exits with a return code and its error stream, or
  \<^verbatim>\<open>subprocess.run\<close> raises (timeout, missing executable); either way it may have
  written bytes to its output path.
\<close>

datatype run_outcome =
    Exited int string "string option"
  | Killed exn "string option"

text \<open>
  The world around one request: the identifier \<^verbatim>\<open>uuid.uuid4()\<close> draws, the time, the
  remote server, the free space for the download and the transcode tool.
\<close>

record env =
  uuid4 :: string
  clock :: real
  requests_get :: "string \<Rightarrow> exn + http_response"
  free_space :: "nat option"
  ffmpeg :: "ffargs \<Rightarrow> run_outcome"

text \<open>\<^verbatim>\<open>str(uuid.uuid4())\<close> is 36 characters, hexadecimal digits and dashes.\<close>

definition is_uuid :: "string \<Rightarrow> bool" where
  "is_uuid s \<longleftrightarrow> length s = 36 \<and> list_all (\<lambda>c. c \<in> set ''0123456789abcdef-'') s"

definition input_path :: "string \<Rightarrow> string" where
  "input_path video_id = ''/tmp/'' @ video_id @ ''_input.mp4''"

definition output_path :: "string \<Rightarrow> string" where
  "output_path video_id = ''/tmp/'' @ video_id @ ''_output.mp4''"

definition final_filename :: "string \<Rightarrow> string" where
  "final_filename video_id = video_id @ ''.mp4''"

definition final_path :: "string \<Rightarrow> string" where
  "final_path video_id = path_join VIDEOS_DIR (final_filename video_id)"

definition raise_for_status :: "http_response \<Rightarrow> exn + unit" where
  "raise_for_status r =
     (if 400 \<le> status_code r \<and> status_code r < 600 then Inl (HTTPError (status_code r))
      else Inr ())"

definition ffmpeg_args :: "string \<Rightarrow> TrimRequest \<Rightarrow> ffargs" where
  "ffmpeg_args video_id request =
     (let fade_start = end_time request - start_time request - fade_duration request in
      \<lparr>ff_i = input_path video_id,
       ff_ss = start_time request,
       ff_t = end_time request - start_time request,
       ff_vf = (fade_start, fade_duration request),
       ff_af = (fade_start, fade_duration request),
       ff_out = output_path video_id\<rparr>)"

definition subprocess_run :: "env \<Rightarrow> ffargs \<Rightarrow> fs \<Rightarrow> (exn + int \<times> string) \<times> fs" where
  "subprocess_run e args fs =
     (let put = (\<lambda>out. case out of None \<Rightarrow> fs
                        | Some b \<Rightarrow> snd (write_file fs (ff_out args) b (clock e) None))
      in case ffmpeg e args of
           Exited returncode stderr out \<Rightarrow> (Inr (returncode, stderr), put out)
         | Killed x out \<Rightarrow> (Inl x, put out))"

datatype trim_result = TrimResult (success: bool) (result_url: string) (message: string)

text \<open>The \<^verbatim>\<open>try\<close> block of \<^verbatim>\<open>trim_video\<close>.\<close>

definition trim_body :: "env \<Rightarrow> TrimRequest \<Rightarrow> fs \<Rightarrow> (exn + trim_result) \<times> fs" where
  "trim_body e request fs =
     (let video_id = uuid4 e in
      case requests_get e (video_url request) of
        Inl x \<Rightarrow> (Inl x, fs)
      | Inr response \<Rightarrow>
         (case raise_for_status response of
            Inl x \<Rightarrow> (Inl x, fs)
          | Inr _ \<Rightarrow>
             (case write_file fs (input_path video_id) (content response) (clock e) (free_space e) of
                (Inl x, fs1) \<Rightarrow> (Inl x, fs1)
              | (Inr _, fs1) \<Rightarrow>
                 (case subprocess_run e (ffmpeg_args video_id request) fs1 of
                    (Inl x, fs2) \<Rightarrow> (Inl x, fs2)
                  | (Inr (returncode, stderr), fs2) \<Rightarrow>
                     if returncode \<noteq> 0 then (Inl (Exception (''FFmpeg failed: '' @ stderr)), fs2)
                     else
                      (case move fs2 (output_path video_id) (final_path video_id) of
                         Inl x \<Rightarrow> (Inl x, fs2)
                       | Inr fs3 \<Rightarrow>
                          (case remove fs3 (input_path video_id) of
                             Inl x \<Rightarrow> (Inl x, fs3)
                           | Inr fs4 \<Rightarrow>
                              (Inr (TrimResult True
                                 (''https://just-determination-production-fea7.up.railway.app/video/''
                                    @ final_filename video_id)
                                 ''Video trimmed and hosted successfully''), fs4)))))))"

text \<open>\<^verbatim>\<open>if os.path.exists(p): os.remove(p)\<close>\<close>

definition remove_if_exists :: "fs \<Rightarrow> string \<Rightarrow> exn + fs" where
  "remove_if_exists fs p = (if exists fs p then remove fs p else Inr fs)"

text \<open>
  The \<^verbatim>\<open>except\<close> block, entered with the exception \<open>x\<close>: an exception raised inside
  it leaves the handler in place of the \<^verbatim>\<open>HTTPException\<close>.
\<close>

definition trim_except :: "string \<Rightarrow> exn \<Rightarrow> fs \<Rightarrow> (exn + trim_result) \<times> fs" where
  "trim_except video_id x fs =
     (case remove_if_exists fs (input_path video_id) of
        Inl x' \<Rightarrow> (Inl x', fs)
      | Inr fs1 \<Rightarrow>
         (case remove_if_exists fs1 (output_path video_id) of
            Inl x' \<Rightarrow> (Inl x', fs1)
          | Inr fs2 \<Rightarrow> (Inl (HTTPException 500 (str_exn x)), fs2)))"

definition trim_video :: "env \<Rightarrow> TrimRequest \<Rightarrow> fs \<Rightarrow> (exn + trim_result) \<times> fs" where
  "trim_video e request fs =
     (case trim_body e request fs of
        (Inr r, fs') \<Rightarrow> (Inr r, fs')
      | (Inl x, fs') \<Rightarrow> trim_except (uuid4 e) x fs')"

subsection \<open>File Retrieval, health and manual sweep\<close>

datatype file_response = FileResponse (file_path: string) (media_type: string)

definition serve_video :: "string \<Rightarrow> fs \<Rightarrow> (exn + file_response) \<times> fs" where
  "serve_video filename fs =
     (let file_path = path_join VIDEOS_DIR filename in
      if \<not> exists fs file_path then (Inl (HTTPException 404 ''Video not found''), fs)
      else (Inr (FileResponse file_path ''video/mp4''), fs))"

text \<open>
  What the framework sends for a \<^verbatim>\<open>FileResponse\<close>: the bytes of the regular file at
  its path, if there is one.
\<close>

definition body_bytes :: "fs \<Rightarrow> file_response \<Rightarrow> string option" where
  "body_bytes fs r =
     (case lookup fs (file_path r) of Some (File b m l) \<Rightarrow> Some b | _ \<Rightarrow> None)"

datatype health_result =
  HealthResult (status: string) (videos_stored: nat) (cleanup_schedule: string) (retention: string)

definition health :: "fs \<Rightarrow> (exn + health_result) \<times> fs" where
  "health fs =
     (case listdir fs VIDEOS_DIR of
        Inl x \<Rightarrow> (Inl x, fs)
      | Inr videos \<Rightarrow>
          (Inr (HealthResult ''healthy'' (length videos) ''Every 30 minutes'' ''1 hour''), fs))"

datatype cleanup_result = CleanupResult (cleanup_message: string) (videos_remaining: nat)

definition manual_cleanup :: "real \<Rightarrow> fs \<Rightarrow> (exn + cleanup_result) \<times> fs" where
  "manual_cleanup now fs =
     (case cleanup_old_videos now fs of
        (Inl x, fs1) \<Rightarrow> (Inl x, fs1)
      | (Inr _, fs1) \<Rightarrow>
          (case listdir fs1 VIDEOS_DIR of
             Inl x \<Rightarrow> (Inl x, fs1)
           | Inr names \<Rightarrow> (Inr (CleanupResult ''Cleanup triggered'' (length names)), fs1)))"

subsection \<open>Vocabulary of the properties\<close>

text \<open>The Storage Directory as a resolved path.\<close>

definition storage :: path where
  "storage = [''app'', ''videos'']"

definition entry :: "fs \<Rightarrow> string \<Rightarrow> node option" where
  "entry fs name = map_of fs (storage @ [name])"

text \<open>A node the sweep deletes: a regular file older than 3600 seconds at time \<open>now\<close>.\<close>

definition expired :: "real \<Rightarrow> node \<Rightarrow> bool" where
  "expired now n \<longleftrightarrow> (case n of File c m l \<Rightarrow> now - m > 3600 | Dir _ \<Rightarrow> False)"

definition is_regular :: "node \<Rightarrow> bool" where
  "is_regular n \<longleftrightarrow> (case n of File c m l \<Rightarrow> True | Dir _ \<Rightarrow> False)"

text \<open>An expired file whose deletion fails.\<close>

definition stuck :: "real \<Rightarrow> node \<Rightarrow> bool" where
  "stuck now n \<longleftrightarrow> (case n of File c m l \<Rightarrow> now - m > 3600 \<and> l | Dir _ \<Rightarrow> False)"

definition old_file :: "real \<Rightarrow> fs \<Rightarrow> string \<Rightarrow> bool" where
  "old_file now fs name \<longleftrightarrow> (case entry fs name of Some n \<Rightarrow> expired now n | None \<Rightarrow> False)"

definition regular_file :: "fs \<Rightarrow> string \<Rightarrow> bool" where
  "regular_file fs name \<longleftrightarrow> (case entry fs name of Some n \<Rightarrow> is_regular n | None \<Rightarrow> False)"

definition stuck_file :: "real \<Rightarrow> fs \<Rightarrow> string \<Rightarrow> bool" where
  "stuck_file now fs name \<longleftrightarrow> (case entry fs name of Some n \<Rightarrow> stuck now n | None \<Rightarrow> False)"

text \<open>An entry of the Storage Directory that is an expired regular file.\<close>

definition expired_video :: "real \<Rightarrow> path \<times> node \<Rightarrow> bool" where
  "expired_video now = (\<lambda>(p, n). p \<noteq> [] \<and> butlast p = storage \<and> expired now n)"

text \<open>
  The filesystem without the expired files among the given names of the Storage
  Directory; every other entry stays as it is, in its place.
\<close>

definition swept :: "real \<Rightarrow> string list \<Rightarrow> fs \<Rightarrow> fs" where
  "swept now names fs =
     filter (\<lambda>(p, n). \<not> (butlast p = storage \<and> p \<noteq> [] \<and> last p \<in> set names \<and> expired now n)) fs"

text \<open>No file that was young at \<open>now\<close> is past the threshold at \<open>now'\<close>.\<close>

definition young_stay_young :: "real \<Rightarrow> real \<Rightarrow> fs \<Rightarrow> bool" where
  "young_stay_young now now' fs \<longleftrightarrow>
     list_all (\<lambda>(p, n). expired now' n \<longrightarrow> expired now n) (entries_in fs storage)"

text \<open>An entry of the Storage Directory that is a regular file.\<close>

definition stored_video :: "path \<times> node \<Rightarrow> bool" where
  "stored_video = (\<lambda>(p, n). p \<noteq> [] \<and> butlast p = storage \<and> is_regular n)"

subsection \<open>Example filesystems and requests\<close>

definition fs_plain :: fs where
  "fs_plain =
     [([''app''], Dir 0), ([''app'', ''videos''], Dir 0), ([''tmp''], Dir 0),
      ([''app'', ''videos'', ''x.mp4''], File ''x'' 100 False),
      ([''app'', ''videos'', ''y.mp4''], File ''y'' 9000 False),
      ([''app'', ''videos'', ''sub''], Dir 50)]"

text \<open>An old file that cannot be unlinked, listed before an old file that can.\<close>

definition fs_stuck :: fs where
  "fs_stuck =
     [([''app''], Dir 0), ([''app'', ''videos''], Dir 0),
      ([''app'', ''videos'', ''a.mp4''], File ''a'' 0 True),
      ([''app'', ''videos'', ''b.mp4''], File ''b'' 0 False),
      ([''app'', ''videos'', ''c.mp4''], File ''c'' 9000 False)]"

text \<open>An old file, then an old file that cannot be unlinked, then another old file.\<close>

definition fs_guarded :: fs where
  "fs_guarded =
     [([''app''], Dir 0), ([''app'', ''videos''], Dir 0),
      ([''app'', ''videos'', ''k.mp4''], File ''k'' 0 False),
      ([''app'', ''videos'', ''l.mp4''], File ''l'' 0 True),
      ([''app'', ''videos'', ''m.mp4''], File ''m'' 0 False),
      ([''app'', ''videos'', ''n.mp4''], File ''n'' 9000 False)]"

text \<open>The Storage Directory has been removed.\<close>

definition fs_no_storage :: fs where
  "fs_no_storage = [([''app''], Dir 0), ([''tmp''], Dir 0)]"

section \<open>Paths into the Storage Directory\<close>

lemma split_path_no_slash: "CHR ''/'' \<notin> set s \<Longrightarrow> split_path s = [s]"
  by (induction s) auto

lemma split_path_storage_child:
  "valid_name name \<Longrightarrow> split_path (path_join VIDEOS_DIR name) = [[], ''app'', ''videos'', name]"
  by (cases name) (auto simp: valid_name_def path_join_def VIDEOS_DIR_def split_path_no_slash)

lemma resolve_storage:
  "resolve fs VIDEOS_DIR = (if is_dir fs [''app''] then Some storage else None)"
  by (simp add: resolve_def VIDEOS_DIR_def storage_def is_dir_def)

lemma resolve_storage_child:
  "valid_name name \<Longrightarrow>
   resolve fs (path_join VIDEOS_DIR name) =
     (if is_dir fs [''app''] \<and> is_dir fs storage then Some (storage @ [name]) else None)"
  by (auto simp: resolve_def split_path_storage_child storage_def valid_name_def is_dir_def)

lemma listdir_storage:
  "listdir fs VIDEOS_DIR = Inr names \<longleftrightarrow>
   is_dir fs [''app''] \<and> is_dir fs storage \<and> names = children fs storage"
  by (auto simp: listdir_def resolve_storage split: if_splits)

lemma lookup_storage_child:
  "valid_name name \<Longrightarrow> is_dir fs [''app''] \<Longrightarrow> is_dir fs storage \<Longrightarrow>
   lookup fs (path_join VIDEOS_DIR name) = entry fs name"
  by (simp add: lookup_def resolve_storage_child entry_def)

lemma storage_child_key:
  "butlast p = storage \<Longrightarrow> p \<noteq> [] \<Longrightarrow> p = storage @ [last p]"
  by (metis append_butlast_last_id)

lemma entry_of_member:
  "distinct (map fst fs) \<Longrightarrow> (storage @ [name], n) \<in> set fs \<Longrightarrow> entry fs name = Some n"
  by (simp add: entry_def)

lemma map_of_filter_distinct:
  assumes "distinct (map fst al)"
  shows "map_of (filter keep al) key =
     (case map_of al key of
        Some node \<Rightarrow> (if keep (key, node) then Some node else None)
      | None \<Rightarrow> None)"
  using assms
proof (induction al)
  case Nil
  then show ?case by simp
next
  case (Cons x al)
  obtain key' node' where x: "x = (key', node')" by (cases x)
  have "map_of al key' = None" using Cons.prems x by (simp add: map_of_eq_None_iff)
  then show ?case using Cons x by (auto split: option.splits)
qed

lemma is_dir_delete:
  "\<not> is_dir fs k \<Longrightarrow> is_dir (AList.delete k fs) p = is_dir fs p"
  by (cases "p = k") (auto simp: is_dir_def AList.delete_conv')

lemma entry_delete:
  "entry (AList.delete (storage @ [name]) fs) name' =
     (if name' = name then None else entry fs name')"
  by (simp add: entry_def AList.delete_conv')

lemma children_valid: "wf_fs fs \<Longrightarrow> list_all valid_name (children fs d)"
  by (auto simp: wf_fs_def children_def entries_in_def list_all_iff)

lemma children_distinct:
  assumes "distinct (map fst fs)"
  shows "distinct (children fs d)"
proof -
  have d: "distinct (map fst (entries_in fs d))"
    using assms by (simp add: entries_in_def distinct_map_filter)
  have "inj_on last (set (map fst (entries_in fs d)))"
    by (rule inj_onI) (auto simp: entries_in_def, metis append_butlast_last_id)
  with d have "distinct (map last (map fst (entries_in fs d)))"
    by (simp only: distinct_map)
  then show ?thesis by (simp add: children_def)
qed

section \<open>The sweep, entry by entry\<close>

lemma sweep_loop_step:
  assumes "valid_name name" "is_dir fs [''app'']" "is_dir fs storage"
  shows "sweep_loop now (name # rest) d t fs =
     (case entry fs name of
        Some (File c m l) \<Rightarrow>
          if now - m > 3600
          then (if l then (Inl (PermissionError (path_join VIDEOS_DIR name)), fs)
                else sweep_loop now rest (d + 1) (t + 1) (AList.delete (storage @ [name]) fs))
          else sweep_loop now rest d (t + 1) fs
      | _ \<Rightarrow> sweep_loop now rest d t fs)"
  using assms
  by (auto simp: isfile_def getmtime_def remove_def lookup_storage_child resolve_storage_child
      entry_def Let_def split: option.splits node.splits)

lemma swept_Nil: "swept now [] fs = fs"
  by (simp add: swept_def)

lemma swept_skip:
  assumes "\<not> old_file now fs name" "distinct (map fst fs)"
  shows "swept now (name # names) fs = swept now names fs"
proof -
  have "\<not> expired now n" if "(storage @ [name], n) \<in> set fs" for n
    using entry_of_member[OF assms(2) that] assms(1) by (simp add: old_file_def)
  then show ?thesis
    unfolding swept_def
    by (intro filter_cong refl) (auto dest: storage_child_key)
qed

lemma swept_delete:
  assumes "old_file now fs name" "distinct (map fst fs)"
  shows "swept now names (AList.delete (storage @ [name]) fs) = swept now (name # names) fs"
proof -
  have "expired now n" if "(storage @ [name], n) \<in> set fs" for n
    using entry_of_member[OF assms(2) that] assms(1) by (simp add: old_file_def)
  then show ?thesis
    unfolding swept_def AList.delete_eq filter_filter
    by (intro filter_cong refl) (auto dest: storage_child_key)
qed

text \<open>
  Over a stretch of the listing in which every deletion succeeds, the loop removes the
  expired files of that stretch and counts what it saw.
\<close>

lemma sweep_loop_prefix:
  assumes "distinct (map fst fs)" "is_dir fs [''app'']" "is_dir fs storage"
    and "list_all valid_name pre" "distinct pre"
    and "\<forall>name \<in> set pre. \<not> stuck_file now fs name"
  shows "sweep_loop now (pre @ rest) d t fs =
     sweep_loop now rest (d + length (filter (old_file now fs) pre))
       (t + length (filter (regular_file fs) pre)) (swept now pre fs)"
  using assms
proof (induction pre arbitrary: fs d t)
  case Nil
  then show ?case by (simp add: swept_Nil)
next
  case (Cons name pre)
  have vn: "valid_name name" using Cons.prems by simp
  note step = sweep_loop_step[OF vn Cons.prems(2,3)]
  show ?case
  proof (cases "old_file now fs name")
    case False
    have IH: "sweep_loop now (pre @ rest) d' t' fs =
      sweep_loop now rest (d' + length (filter (old_file now fs) pre))
       (t' + length (filter (regular_file fs) pre)) (swept now pre fs)" for d' t'
      using Cons.prems by (intro Cons.IH) auto
    have skip: "sweep_loop now (name # pre @ rest) d t fs =
        sweep_loop now (pre @ rest) d (if regular_file fs name then t + 1 else t) fs"
      using False
      by (auto simp: step old_file_def regular_file_def expired_def is_regular_def
          simp del: sweep_loop.simps(2) split: option.splits node.splits)
    show ?thesis
      using False
      by (simp add: skip IH swept_skip[OF False Cons.prems(1)] del: sweep_loop.simps(2))
  next
    case True
    then obtain c m where e: "entry fs name = Some (File c m False)" and old: "now - m > 3600"
      using Cons.prems(6)
      by (auto simp: old_file_def stuck_file_def expired_def stuck_def
          split: option.splits node.splits)
    let ?fs = "AList.delete (storage @ [name]) fs"
    have nd: "\<not> is_dir fs (storage @ [name])"
      using e by (simp add: is_dir_def entry_def)
    have same: "entry ?fs name' = entry fs name'" if "name' \<in> set pre" for name'
      using that Cons.prems(5) by (auto simp: entry_delete)
    have IH: "sweep_loop now (pre @ rest) d' t' ?fs =
      sweep_loop now rest (d' + length (filter (old_file now ?fs) pre))
       (t' + length (filter (regular_file ?fs) pre)) (swept now pre ?fs)" for d' t'
      using Cons.prems same
      by (intro Cons.IH) (auto simp: AList.distinct_delete is_dir_delete[OF nd] stuck_file_def)
    have f1: "filter (old_file now ?fs) pre = filter (old_file now fs) pre"
      by (rule filter_cong) (auto simp: old_file_def same)
    have f2: "filter (regular_file ?fs) pre = filter (regular_file fs) pre"
      by (rule filter_cong) (auto simp: regular_file_def same)
    have reg: "regular_file fs name"
      using e by (simp add: regular_file_def is_regular_def)
    show ?thesis
      using True e old reg
      by (simp add: step IH f1 f2 swept_delete[OF True Cons.prems(1)] del: sweep_loop.simps(2))
  qed
qed

lemma map_of_swept:
  "distinct (map fst fs) \<Longrightarrow>
   map_of (swept now names fs) k =
     (case map_of fs k of None \<Rightarrow> None
      | Some n \<Rightarrow> if butlast k = storage \<and> k \<noteq> [] \<and> last k \<in> set names \<and> expired now n
                  then None else Some n)"
  by (simp add: swept_def map_of_filter_distinct split: option.splits)

lemma entry_swept:
  "distinct (map fst fs) \<Longrightarrow>
   entry (swept now names fs) name =
     (if name \<in> set names \<and> old_file now fs name then None else entry fs name)"
  by (auto simp: entry_def map_of_swept old_file_def storage_def split: option.splits)

lemma is_dir_swept:
  "distinct (map fst fs) \<Longrightarrow> is_dir (swept now names fs) p = is_dir fs p"
  by (auto simp: is_dir_def map_of_swept expired_def split: option.splits node.splits)

lemma distinct_swept: "distinct (map fst fs) \<Longrightarrow> distinct (map fst (swept now names fs))"
  by (simp add: swept_def distinct_map_filter)

lemma children_swept:
  assumes "distinct (map fst fs)"
  shows "children (swept now names fs) storage =
     filter (\<lambda>name. \<not> (name \<in> set names \<and> old_file now fs name)) (children fs storage)"
proof -
  let ?S = "\<lambda>(p, n). p \<noteq> [] \<and> butlast p = storage"
  let ?P = "\<lambda>(p, n). \<not> (butlast p = storage \<and> p \<noteq> [] \<and> last p \<in> set names \<and> expired now n)"
  let ?Q = "\<lambda>name. \<not> (name \<in> set names \<and> old_file now fs name)"
  have "filter ?P (filter ?S fs) = filter (?Q \<circ> (last \<circ> fst)) (filter ?S fs)"
  proof (intro filter_cong refl)
    fix x assume "x \<in> set (filter ?S fs)"
    then have mem: "x \<in> set fs" "?S x" by simp_all
    obtain p n where x0: "x = (p, n)" by (cases x)
    with mem have x: "x = (p, n)" "(p, n) \<in> set fs" "p \<noteq> []" "butlast p = storage"
      by simp_all
    then have "(storage @ [last p], n) \<in> set fs" by (metis storage_child_key)
    then have "entry fs (last p) = Some n" by (rule entry_of_member[OF assms])
    then show "?P x = (?Q \<circ> (last \<circ> fst)) x" using x by (simp add: old_file_def)
  qed
  moreover have "filter ?S (filter ?P fs) = filter ?P (filter ?S fs)"
    by (simp add: conj_commute)
  ultimately show ?thesis
    by (simp only: children_def entries_in_def swept_def filter_map)
qed

lemma swept_children:
  "swept now (children fs storage) fs = filter (\<lambda>x. \<not> expired_video now x) fs"
  unfolding swept_def expired_video_def
  by (intro filter_cong refl) (force simp: children_def entries_in_def)

section \<open>One pass of the Retention Sweeper\<close>

lemma cleanup_completes:
  assumes "wf_fs fs" "listdir fs VIDEOS_DIR = Inr names"
    and "\<forall>name \<in> set names. \<not> stuck_file now fs name"
  shows "cleanup_old_videos now fs =
    (Inr (Complete (length (filter (old_file now fs) names))
                   (length (filter (regular_file fs) names))),
     swept now names fs)"
proof -
  have d: "distinct (map fst fs)" using assms(1) by (simp add: wf_fs_def)
  have dirs: "is_dir fs [''app'']" "is_dir fs storage" and names: "names = children fs storage"
    using assms(2) by (simp_all add: listdir_storage)
  have "sweep_loop now (names @ []) 0 0 fs =
     sweep_loop now [] (0 + length (filter (old_file now fs) names))
       (0 + length (filter (regular_file fs) names)) (swept now names fs)"
    using d dirs assms(3) children_valid[OF assms(1)] children_distinct[OF d]
    by (intro sweep_loop_prefix) (simp_all add: names)
  then show ?thesis
    using assms(2) by (simp add: cleanup_old_videos_def sweep_body_def)
qed

lemma cleanup_aborts:
  assumes "wf_fs fs" "listdir fs VIDEOS_DIR = Inr (pre @ bad # post)"
    and "\<forall>name \<in> set pre. \<not> stuck_file now fs name" "stuck_file now fs bad"
  shows "cleanup_old_videos now fs =
    (Inr (CleanupError (str_exn (PermissionError (path_join VIDEOS_DIR bad)))), swept now pre fs)"
proof -
  have d: "distinct (map fst fs)" using assms(1) by (simp add: wf_fs_def)
  have dirs: "is_dir fs [''app'']" "is_dir fs storage"
    and names: "pre @ bad # post = children fs storage"
    using assms(2) by (simp_all add: listdir_storage)
  have v: "list_all valid_name (pre @ bad # post)" and dn: "distinct (pre @ bad # post)"
    using children_valid[OF assms(1)] children_distinct[OF d] by (simp_all add: names)
  have pre: "sweep_loop now (pre @ bad # post) 0 0 fs =
     sweep_loop now (bad # post) (0 + length (filter (old_file now fs) pre))
       (0 + length (filter (regular_file fs) pre)) (swept now pre fs)"
    using d dirs assms(3) v dn by (intro sweep_loop_prefix) simp_all
  have e: "entry (swept now pre fs) bad = entry fs bad"
    using dn by (simp add: entry_swept[OF d])
  obtain c m where "entry fs bad = Some (File c m True)" "now - m > 3600"
    using assms(4) by (auto simp: stuck_file_def stuck_def split: option.splits node.splits)
  then have "sweep_loop now (bad # post) d' t' (swept now pre fs) =
     (Inl (PermissionError (path_join VIDEOS_DIR bad)), swept now pre fs)" for d' t'
    using v dirs by (subst sweep_loop_step) (simp_all add: is_dir_swept[OF d] e)
  then show ?thesis
    using assms(2) pre by (simp add: cleanup_old_videos_def sweep_body_def)
qed

text \<open>
  A pass that meets no expired file before its first failing deletion changes nothing
  and deletes nothing.
\<close>

lemma sweep_loop_quiet:
  assumes "distinct (map fst fs)" "is_dir fs [''app'']" "is_dir fs storage"
    and "list_all valid_name names" "distinct names"
    and "\<forall>name \<in> set (takeWhile (\<lambda>n. \<not> stuck_file now fs n) names). \<not> old_file now fs name"
  shows "snd (sweep_loop now names d t fs) = fs \<and>
         (\<forall>d' t'. fst (sweep_loop now names d t fs) = Inr (d', t') \<longrightarrow> d' = d)"
proof -
  let ?pre = "takeWhile (\<lambda>n. \<not> stuck_file now fs n) names"
  let ?rest = "dropWhile (\<lambda>n. \<not> stuck_file now fs n) names"
  have nostuck: "\<forall>name \<in> set ?pre. \<not> stuck_file now fs name"
    by (auto dest: set_takeWhileD)
  have same: "swept now ?pre fs = fs"
    unfolding swept_def
  proof (rule filter_True, clarify)
    fix p n
    assume "(p, n) \<in> set fs" "butlast p = storage" "p \<noteq> []" "last p \<in> set ?pre"
      "expired now n"
    then have "old_file now fs (last p)"
      using entry_of_member[OF assms(1), of "last p" n] storage_child_key[of p]
      by (simp add: old_file_def)
    with assms(6) \<open>last p \<in> set ?pre\<close> show False by blast
  qed
  have none: "filter (old_file now fs) ?pre = []"
    using assms(6) by (simp add: filter_empty_conv)
  have "sweep_loop now (?pre @ ?rest) d t fs =
     sweep_loop now ?rest (d + length (filter (old_file now fs) ?pre))
       (t + length (filter (regular_file fs) ?pre)) (swept now ?pre fs)"
    using assms(1-3) nostuck assms(4,5)
    by (intro sweep_loop_prefix) (auto simp: list_all_iff dest: set_takeWhileD)
  then have run: "sweep_loop now names d t fs =
     sweep_loop now ?rest d (t + length (filter (regular_file fs) ?pre)) fs"
    by (simp add: same none)
  have tail: "snd (sweep_loop now ?rest d t'' fs) = fs \<and>
      (\<forall>d' t'. fst (sweep_loop now ?rest d t'' fs) = Inr (d', t') \<longrightarrow> d' = d)" for t''
  proof (cases ?rest)
    case Nil
    show ?thesis unfolding Nil by simp
  next
    case (Cons bad post)
    then have "stuck_file now fs bad"
      by (metis (mono_tags, lifting) hd_dropWhile list.sel(1) list.distinct(1))
    then obtain c m where "entry fs bad = Some (File c m True)" "now - m > 3600"
      by (auto simp: stuck_file_def stuck_def split: option.splits node.splits)
    moreover have "valid_name bad"
      using assms(4) Cons by (metis list_all_iff list.set_intros(1) set_dropWhileD)
    ultimately have "sweep_loop now (bad # post) d t'' fs =
       (Inl (PermissionError (path_join VIDEOS_DIR bad)), fs)"
      using assms(2,3) by (subst sweep_loop_step) simp_all
    then show ?thesis unfolding Cons by simp
  qed
  show ?thesis using run tail by simp
qed

section \<open>Claims about the Retention Sweeper\<close>

lemma count_children:
  assumes "distinct (map fst fs)"
    and "\<And>name n. entry fs name = Some n \<Longrightarrow> P name = Q n"
  shows "length (filter P (children fs storage)) =
     length (filter (\<lambda>(p, n). p \<noteq> [] \<and> butlast p = storage \<and> Q n) fs)"
proof -
  have "filter (P \<circ> (last \<circ> fst)) (entries_in fs storage) =
        filter (\<lambda>(p, n). Q n) (entries_in fs storage)"
  proof (intro filter_cong refl)
    fix x assume "x \<in> set (entries_in fs storage)"
    then have mem: "x \<in> set fs" "fst x \<noteq> []" "butlast (fst x) = storage"
      by (auto simp: entries_in_def)
    then have "(storage @ [last (fst x)], snd x) \<in> set fs"
      by (metis storage_child_key prod.collapse)
    then have "entry fs (last (fst x)) = Some (snd x)" by (rule entry_of_member[OF assms(1)])
    then show "(P \<circ> (last \<circ> fst)) x = (case x of (p, n) \<Rightarrow> Q n)"
      using assms(2) by (cases x) simp
  qed
  then have "length (filter P (children fs storage)) =
      length (filter (\<lambda>(p, n). Q n) (entries_in fs storage))"
    by (simp add: children_def filter_map)
  also have "filter (\<lambda>(p, n). Q n) (entries_in fs storage) =
      filter (\<lambda>(p, n). p \<noteq> [] \<and> butlast p = storage \<and> Q n) fs"
    unfolding entries_in_def filter_filter by (intro filter_cong refl) auto
  finally show ?thesis .
qed

text \<open>
  C5, as amended. For every well-formed filesystem whose Storage Directory can be listed
  and holds no expired file that refuses deletion, one pass at time \<open>now\<close> removes exactly
  the regular files of the Storage Directory whose age \<open>now - mtime\<close> exceeds 3600 seconds
  and leaves every other entry as it was; it reports the number of files deleted and the
  number of regular files seen.
\<close>

theorem sweep_removes_exactly_expired:
  assumes "wf_fs fs" and "listdir fs VIDEOS_DIR = Inr names"
    and "\<forall>name \<in> set names. \<not> stuck_file now fs name"
  shows "cleanup_old_videos now fs =
     (Inr (Complete (length (filter (expired_video now) fs)) (length (filter stored_video fs))),
      filter (\<lambda>x. \<not> expired_video now x) fs)"
proof -
  have d: "distinct (map fst fs)" using assms(1) by (simp add: wf_fs_def)
  have names: "names = children fs storage"
    using assms(2) by (simp add: listdir_storage)
  have c1: "length (filter (old_file now fs) names) = length (filter (expired_video now) fs)"
    unfolding names expired_video_def
    by (rule count_children[OF d]) (simp add: old_file_def)
  have c2: "length (filter (regular_file fs) names) = length (filter stored_video fs)"
    unfolding names stored_video_def
    by (rule count_children[OF d]) (simp add: regular_file_def)
  show ?thesis
    using cleanup_completes[OF assms] c1 c2 by (simp add: names swept_children)
qed

theorem sweep_removes_exactly_expired_witness:
  "wf_fs fs_plain \<and> listdir fs_plain VIDEOS_DIR = Inr [''x.mp4'', ''y.mp4'', ''sub'']
   \<and> list_all (\<lambda>name. \<not> stuck_file 10000 fs_plain name) [''x.mp4'', ''y.mp4'', ''sub'']
   \<and> cleanup_old_videos 10000 fs_plain =
       (Inr (Complete 1 2),
        [([''app''], Dir 0), ([''app'', ''videos''], Dir 0), ([''tmp''], Dir 0),
         ([''app'', ''videos'', ''y.mp4''], File ''y'' 9000 False),
         ([''app'', ''videos'', ''sub''], Dir 50)])"
proof -
  have h1: "wf_fs fs_plain" by code_simp
  have h2: "listdir fs_plain VIDEOS_DIR = Inr [''x.mp4'', ''y.mp4'', ''sub'']" by code_simp
  have h3: "\<forall>name \<in> set [''x.mp4'', ''y.mp4'', ''sub'']. \<not> stuck_file 10000 fs_plain name"
    by code_simp
  have e: "length (filter (expired_video 10000) fs_plain) = 1
     \<and> length (filter stored_video fs_plain) = 2
     \<and> filter (\<lambda>x. \<not> expired_video 10000 x) fs_plain =
        [([''app''], Dir 0), ([''app'', ''videos''], Dir 0), ([''tmp''], Dir 0),
         ([''app'', ''videos'', ''y.mp4''], File ''y'' 9000 False),
         ([''app'', ''videos'', ''sub''], Dir 50)]"
    by code_simp
  show ?thesis
    using sweep_removes_exactly_expired[OF h1 h2 h3] h1 h2 h3 e by (simp add: list_all_iff)
qed

text \<open>
  C5 as stated fails: in \<open>fs_stuck\<close> the pass at time 10000 stops at \<open>a.mp4\<close>, whose
  deletion is refused, and the regular file \<open>b.mp4\<close> of age 10000 is still there afterwards.
\<close>

theorem sweep_leaves_expired_file:
  "isfile fs_stuck ''/app/videos/b.mp4''
   \<and> getmtime fs_stuck ''/app/videos/b.mp4'' = Inr 0
   \<and> (10000 :: real) - 0 > 3600
   \<and> isfile (snd (cleanup_old_videos 10000 fs_stuck)) ''/app/videos/b.mp4''"
  by code_simp

lemma takeWhile_before:
  "\<not> P b \<Longrightarrow> set (takeWhile P (xs @ b # ys)) \<subseteq> set xs"
  by (induction xs) auto

lemma cleanup_snd:
  assumes "wf_fs fs" "listdir fs VIDEOS_DIR = Inr names"
  shows "snd (cleanup_old_videos now fs) =
     swept now (takeWhile (\<lambda>n. \<not> stuck_file now fs n) names) fs"
proof (cases "\<forall>name \<in> set names. \<not> stuck_file now fs name")
  case True
  then have tw: "takeWhile (\<lambda>n. \<not> stuck_file now fs n) names = names" by simp
  show ?thesis unfolding tw using cleanup_completes[OF assms True] by simp
next
  case False
  then obtain pre bad post where split: "names = pre @ bad # post"
    and bad: "stuck_file now fs bad" and pre: "\<forall>name \<in> set pre. \<not> stuck_file now fs name"
    using split_list_first_prop[of names "\<lambda>n. stuck_file now fs n"] by blast
  have tw: "takeWhile (\<lambda>n. \<not> stuck_file now fs n) names = pre"
    using split bad pre by (simp add: takeWhile_append2)
  show ?thesis
    unfolding tw using cleanup_aborts[OF assms(1) assms(2)[unfolded split] pre bad] by simp
qed

text \<open>
  C6. The pass is idempotent: a second pass, run no earlier than the first and before any
  file the first pass left young has crossed the threshold, deletes nothing and leaves the
  filesystem as the first pass left it. This holds also when the first pass was cut short
  by a failed deletion.
\<close>

theorem sweep_twice_deletes_nothing_more:
  assumes "wf_fs fs" and "now \<le> now'"
    and "young_stay_young now now' (snd (cleanup_old_videos now fs))"
  shows "snd (cleanup_old_videos now' (snd (cleanup_old_videos now fs))) =
           snd (cleanup_old_videos now fs)
       \<and> (\<forall>d t. fst (cleanup_old_videos now' (snd (cleanup_old_videos now fs))) =
                  Inr (Complete d t) \<longrightarrow> d = 0)"
proof (cases "listdir fs VIDEOS_DIR")
  case (Inl x)
  then have "cleanup_old_videos n fs = (Inr (CleanupError (str_exn x)), fs)" for n
    by (simp add: cleanup_old_videos_def sweep_body_def)
  then show ?thesis by simp
next
  case (Inr names)
  let ?stuck = "\<lambda>n. stuck_file now fs n"
  let ?pre = "takeWhile (\<lambda>n. \<not> ?stuck n) names"
  let ?rest = "dropWhile (\<lambda>n. \<not> ?stuck n) names"
  let ?fs1 = "swept now ?pre fs"
  have d: "distinct (map fst fs)" using assms(1) by (simp add: wf_fs_def)
  have fs1: "snd (cleanup_old_videos now fs) = ?fs1" by (rule cleanup_snd[OF assms(1) Inr])
  have dirs: "is_dir fs [''app'']" "is_dir fs storage" and names: "names = children fs storage"
    using Inr by (simp_all add: listdir_storage)
  have vn: "list_all valid_name names" and dn: "distinct names"
    using children_valid[OF assms(1)] children_distinct[OF d] by (simp_all add: names)
  let ?Q = "\<lambda>name. \<not> (name \<in> set ?pre \<and> old_file now fs name)"
  let ?names1 = "filter ?Q names"
  have d1: "distinct (map fst ?fs1)" by (rule distinct_swept[OF d])
  have dirs1: "is_dir ?fs1 [''app'']" "is_dir ?fs1 storage"
    using dirs by (simp_all add: is_dir_swept[OF d])
  have list1: "listdir ?fs1 VIDEOS_DIR = Inr ?names1"
    using dirs1 by (simp add: listdir_storage children_swept[OF d] names)
  have vn1: "list_all valid_name ?names1" and dn1: "distinct ?names1"
    using vn dn by (simp_all add: list_all_iff)
  have quiet: "\<not> old_file now' ?fs1 name"
    if mem: "name \<in> set (takeWhile (\<lambda>n. \<not> stuck_file now' ?fs1 n) ?names1)" for name
  proof
    assume old': "old_file now' ?fs1 name"
    then obtain n where e1: "entry ?fs1 name = Some n" and exp': "expired now' n"
      by (auto simp: old_file_def split: option.splits)
    have e: "entry fs name = Some n" and notpre: "\<not> (name \<in> set ?pre \<and> old_file now fs name)"
      using e1 by (auto simp: entry_swept[OF d] split: if_splits)
    have "(storage @ [name], n) \<in> set ?fs1"
      using e1 by (auto simp: entry_def dest: map_of_SomeD)
    then have "(storage @ [name], n) \<in> set (entries_in ?fs1 storage)"
      by (simp add: entries_in_def)
    with assms(3) exp' have exp: "expired now n"
      by (auto simp: young_stay_young_def fs1 list_all_iff)
    then have old: "old_file now fs name" using e by (simp add: old_file_def)
    with notpre have np: "name \<notin> set ?pre" by simp
    have "name \<in> set names" using mem by (auto dest: set_takeWhileD)
    then have "name \<in> set ?pre \<union> set ?rest"
      by (metis set_append takeWhile_dropWhile_id)
    with np have inrest: "name \<in> set ?rest" by simp
    then obtain bad post where rest: "?rest = bad # post" by (cases ?rest) auto
    then have bad: "stuck_file now fs bad"
      by (metis (mono_tags, lifting) hd_dropWhile list.sel(1) list.distinct(1))
    have split: "names = ?pre @ bad # post"
      using rest by (metis takeWhile_dropWhile_id)
    have badnp: "bad \<notin> set ?pre" using dn split
      by (metis disjoint_iff distinct_append list.set_intros(1))
    have names1: "?names1 = filter ?Q ?pre @ bad # filter ?Q post"
    proof -
      have "?names1 = filter ?Q (?pre @ bad # post)" using split by simp
      then show ?thesis using badnp by simp
    qed
    have eb: "entry ?fs1 bad = entry fs bad"
      using badnp by (simp add: entry_swept[OF d])
    obtain c m where "entry fs bad = Some (File c m True)" "now - m > 3600"
      using bad by (auto simp: stuck_file_def stuck_def split: option.splits node.splits)
    moreover have "stuck_file now' ?fs1 bad \<longleftrightarrow>
        (case entry ?fs1 bad of None \<Rightarrow> False | Some x \<Rightarrow> stuck now' x)"
      by (rule stuck_file_def)
    ultimately have "stuck_file now' ?fs1 bad"
      using assms(2) by (simp only: eb) (simp add: stuck_def)
    then have "set (takeWhile (\<lambda>n. \<not> stuck_file now' ?fs1 n) ?names1) \<subseteq> set (filter ?Q ?pre)"
      unfolding names1 by (intro takeWhile_before) simp
    with mem have "name \<in> set ?pre" by auto
    with np show False by simp
  qed
  have loop: "snd (sweep_loop now' ?names1 0 0 ?fs1) = ?fs1 \<and>
         (\<forall>d' t'. fst (sweep_loop now' ?names1 0 0 ?fs1) = Inr (d', t') \<longrightarrow> d' = 0)"
    using quiet by (intro sweep_loop_quiet[OF d1 dirs1 vn1 dn1]) blast
  have "cleanup_old_videos now' ?fs1 =
     (case sweep_loop now' ?names1 0 0 ?fs1 of
        (Inr (deleted, total'), fs') \<Rightarrow> (Inr (Complete deleted total'), fs')
      | (Inl e, fs') \<Rightarrow> (Inr (CleanupError (str_exn e)), fs'))"
    using list1 by (simp add: cleanup_old_videos_def sweep_body_def)
  then show ?thesis
    using loop unfolding fs1
    by (auto split: prod.splits sum.splits)
qed

theorem sweep_twice_deletes_nothing_more_witness:
  "wf_fs fs_guarded \<and> (10000 :: real) \<le> 10100
   \<and> young_stay_young 10000 10100 (snd (cleanup_old_videos 10000 fs_guarded))
   \<and> snd (cleanup_old_videos 10000 fs_guarded) =
        [([''app''], Dir 0), ([''app'', ''videos''], Dir 0),
         ([''app'', ''videos'', ''l.mp4''], File ''l'' 0 True),
         ([''app'', ''videos'', ''m.mp4''], File ''m'' 0 False),
         ([''app'', ''videos'', ''n.mp4''], File ''n'' 9000 False)]
   \<and> snd (cleanup_old_videos 10100 (snd (cleanup_old_videos 10000 fs_guarded))) =
        snd (cleanup_old_videos 10000 fs_guarded)"
proof -
  have h1: "wf_fs fs_guarded" by code_simp
  have h2: "(10000 :: real) \<le> 10100" by simp
  have h3: "young_stay_young 10000 10100 (snd (cleanup_old_videos 10000 fs_guarded))"
    by code_simp
  have e: "snd (cleanup_old_videos 10000 fs_guarded) =
        [([''app''], Dir 0), ([''app'', ''videos''], Dir 0),
         ([''app'', ''videos'', ''l.mp4''], File ''l'' 0 True),
         ([''app'', ''videos'', ''m.mp4''], File ''m'' 0 False),
         ([''app'', ''videos'', ''n.mp4''], File ''n'' 9000 False)]"
    by code_simp
  from sweep_twice_deletes_nothing_more[OF h1 h2 h3]
  have "snd (cleanup_old_videos 10100 (snd (cleanup_old_videos 10000 fs_guarded))) =
        snd (cleanup_old_videos 10000 fs_guarded)" by (rule conjunct1)
  with h1 h2 h3 e show ?thesis by (intro conjI)
qed

text \<open>
  C3, as amended. A failed deletion is caught by the single handler around the whole pass:
  the error is reported and not propagated, the entries listed before the failing file
  have been examined and deleted if expired, and the failing file and every entry listed
  after it are left as they were.
\<close>

theorem sweep_stops_at_failed_deletion:
  assumes "wf_fs fs" and "listdir fs VIDEOS_DIR = Inr (pre @ bad # post)"
    and "\<forall>name \<in> set pre. \<not> stuck_file now fs name" and "stuck_file now fs bad"
  shows "cleanup_old_videos now fs =
           (Inr (CleanupError (str_exn (PermissionError (path_join VIDEOS_DIR bad)))),
            swept now pre fs)
       \<and> (\<forall>name \<in> set (bad # post). entry (swept now pre fs) name = entry fs name)"
proof -
  have d: "distinct (map fst fs)" using assms(1) by (simp add: wf_fs_def)
  have "pre @ bad # post = children fs storage"
    using assms(2) by (simp add: listdir_storage)
  then have "distinct (pre @ bad # post)"
    using children_distinct[OF d] by simp
  then have "\<forall>name \<in> set (bad # post). name \<notin> set pre" by auto
  then have "\<forall>name \<in> set (bad # post). entry (swept now pre fs) name = entry fs name"
    by (simp add: entry_swept[OF d])
  with cleanup_aborts[OF assms] show ?thesis by simp
qed

theorem sweep_stops_at_failed_deletion_witness:
  "wf_fs fs_guarded
   \<and> listdir fs_guarded VIDEOS_DIR = Inr ([''k.mp4''] @ ''l.mp4'' # [''m.mp4'', ''n.mp4''])
   \<and> \<not> stuck_file 10000 fs_guarded ''k.mp4'' \<and> stuck_file 10000 fs_guarded ''l.mp4''
   \<and> cleanup_old_videos 10000 fs_guarded =
        (Inr (CleanupError ''[Errno 1] Operation not permitted: /app/videos/l.mp4''),
         [([''app''], Dir 0), ([''app'', ''videos''], Dir 0),
          ([''app'', ''videos'', ''l.mp4''], File ''l'' 0 True),
          ([''app'', ''videos'', ''m.mp4''], File ''m'' 0 False),
          ([''app'', ''videos'', ''n.mp4''], File ''n'' 9000 False)])"
proof -
  have h1: "wf_fs fs_guarded" by code_simp
  have h2: "listdir fs_guarded VIDEOS_DIR = Inr ([''k.mp4''] @ ''l.mp4'' # [''m.mp4'', ''n.mp4''])"
    by code_simp
  have h3: "\<forall>name \<in> set [''k.mp4'']. \<not> stuck_file 10000 fs_guarded name" by code_simp
  have h4: "stuck_file 10000 fs_guarded ''l.mp4''" by code_simp
  have e: "str_exn (PermissionError (path_join VIDEOS_DIR ''l.mp4'')) =
             ''[Errno 1] Operation not permitted: /app/videos/l.mp4''
     \<and> swept 10000 [''k.mp4''] fs_guarded =
         [([''app''], Dir 0), ([''app'', ''videos''], Dir 0),
          ([''app'', ''videos'', ''l.mp4''], File ''l'' 0 True),
          ([''app'', ''videos'', ''m.mp4''], File ''m'' 0 False),
          ([''app'', ''videos'', ''n.mp4''], File ''n'' 9000 False)]"
    by code_simp
  from sweep_stops_at_failed_deletion[OF h1 h2 h3 h4]
  have "cleanup_old_videos 10000 fs_guarded =
           (Inr (CleanupError (str_exn (PermissionError (path_join VIDEOS_DIR ''l.mp4'')))),
            swept 10000 [''k.mp4''] fs_guarded)" by (rule conjunct1)
  with h1 h2 h3 h4 e show ?thesis by simp
qed

text \<open>
  C3 as stated fails: in \<open>fs_guarded\<close> the deletion of \<open>l.mp4\<close> fails, and \<open>m.mp4\<close>, a
  regular file of age 10000 that can be deleted, is still there after the pass.
\<close>

theorem sweep_skips_files_after_failure:
  "fst (cleanup_old_videos 10000 fs_guarded) =
     Inr (CleanupError ''[Errno 1] Operation not permitted: /app/videos/l.mp4'')
   \<and> isfile fs_guarded ''/app/videos/m.mp4''
   \<and> getmtime fs_guarded ''/app/videos/m.mp4'' = Inr 0
   \<and> (10000 :: real) - 0 > 3600
   \<and> \<not> isl (remove fs_guarded ''/app/videos/m.mp4'')
   \<and> isfile (snd (cleanup_old_videos 10000 fs_guarded)) ''/app/videos/m.mp4''"
  by code_simp

text \<open>
  C9, as amended. \<open>cleanup_old_videos\<close> never propagates an exception: whatever the
  filesystem, it returns, and every error of the pass ends in its report. The handler of
  GET /cleanup then lists the Storage Directory itself, outside any handler: when that
  listing succeeds it returns the success payload with \<open>videos_remaining\<close> equal to the
  number of directory entries after the pass; when the listing fails, its exception
  leaves the handler.
\<close>

theorem manual_cleanup_outcome:
  "(\<exists>report. fst (cleanup_old_videos now fs) = Inr report)
   \<and> manual_cleanup now fs =
       (case listdir (snd (cleanup_old_videos now fs)) VIDEOS_DIR of
          Inr names \<Rightarrow>
            (Inr (CleanupResult ''Cleanup triggered'' (length names)),
             snd (cleanup_old_videos now fs))
        | Inl x \<Rightarrow> (Inl x, snd (cleanup_old_videos now fs)))"
  by (auto simp: manual_cleanup_def cleanup_old_videos_def split: prod.splits sum.splits)

theorem manual_cleanup_outcome_witness:
  "fst (cleanup_old_videos 10000 fs_plain) = Inr (Complete 1 2)
   \<and> listdir (snd (cleanup_old_videos 10000 fs_plain)) VIDEOS_DIR = Inr [''y.mp4'', ''sub'']
   \<and> fst (manual_cleanup 10000 fs_plain) = Inr (CleanupResult ''Cleanup triggered'' 2)"
proof -
  have e: "fst (cleanup_old_videos 10000 fs_plain) = Inr (Complete 1 2)
     \<and> listdir (snd (cleanup_old_videos 10000 fs_plain)) VIDEOS_DIR = Inr [''y.mp4'', ''sub'']"
    by code_simp
  from manual_cleanup_outcome[of 10000 fs_plain]
  have "manual_cleanup 10000 fs_plain =
       (case listdir (snd (cleanup_old_videos 10000 fs_plain)) VIDEOS_DIR of
          Inr names \<Rightarrow>
            (Inr (CleanupResult ''Cleanup triggered'' (length names)),
             snd (cleanup_old_videos 10000 fs_plain))
        | Inl x \<Rightarrow> (Inl x, snd (cleanup_old_videos 10000 fs_plain)))" by (rule conjunct2)
  with e show ?thesis by simp
qed

text \<open>
  C9 as stated fails: when the Storage Directory is gone the pass itself reports the
  failed listing and returns, but GET /cleanup raises instead of returning a payload.
\<close>

theorem manual_cleanup_raises_without_storage:
  "cleanup_old_videos 0 fs_no_storage =
     (Inr (CleanupError ''[Errno 2] No such file or directory: /app/videos''), fs_no_storage)
   \<and> manual_cleanup 0 fs_no_storage = (Inl (FileNotFoundError ''/app/videos''), fs_no_storage)"
  by code_simp

end
